theory Spec2Isabelle
  imports Complex_Main
begin

section \<open>The active-workout screen of IronPillarApp\<close>

text \<open>
  A shallow embedding of \<^verbatim>\<open>src/screens/Workouts/ActiveWorkoutScreen.tsx\<close> and of the
  types of \<^verbatim>\<open>src/types/index.ts\<close> it uses. The React state of the component is a
  record, every handler is a function from the state (and the results of the calls it
  awaits) to the new state and the list of calls it issued. A handler runs to its end
  before the next one starts: the values a handler closes over are the values of the
  state it is given.

  JavaScript numbers that hold counts, seconds and repetitions are \<open>int\<close>; a weight is a
  \<open>real\<close> (the screen reads it with \<^verbatim>\<open>parseFloat\<close>). \<^verbatim>\<open>null\<close> and \<^verbatim>\<open>undefined\<close> are
  \<open>None\<close>. \<^verbatim>\<open>NaN\<close> is not a value of the model: the screen turns it into \<^verbatim>\<open>null\<close>
  before it stores a number (\<^verbatim>\<open>parseFloat(text) || null\<close>).
\<close>

subsection \<open>Types (src/types/index.ts)\<close>

text \<open>Of \<^verbatim>\<open>Exercise\<close> the screen's handlers read the name only.\<close>

record Exercise =
  name :: string

text \<open>
  \<^verbatim>\<open>WorkoutExercise & { exercise: Exercise }\<close>; the fields carry the prefix \<open>we_\<close>
  where \<^verbatim>\<open>ActiveSet\<close> has a field of the same name.
\<close>

record WorkoutExercise =
  we_exercise_id :: string
  we_sets :: int
  we_reps :: "int option"
  we_rest_seconds :: int
  exercise :: Exercise

record WorkoutWithExercises =
  workout_id :: string
  workout_name :: string
  workout_exercises :: "WorkoutExercise list"

record ActiveSet =
  set_id :: "string option"
  exercise_id :: string
  exercise_name :: string
  set_number :: int
  weight_lbs :: "real option"
  reps :: "int option"
  rpe :: "int option"
  completed :: bool
  target_reps :: "int option"
  rest_seconds :: "int option"

text \<open>The row that \<^verbatim>\<open>completeSet\<close> inserts into \<^verbatim>\<open>workout_session_sets\<close>.\<close>

record SessionSetRow =
  row_session_id :: string
  row_exercise_id :: string
  row_exercise_name :: string
  row_set_number :: int
  row_weight_lbs :: "real option"
  row_reps :: "int option"
  row_rpe :: "int option"
  row_completed :: bool

subsection \<open>The component's state and its surroundings\<close>

text \<open>The \<^verbatim>\<open>useState\<close> cells of the component (\<^verbatim>\<open>startTime\<close> is never set again
  and is an argument where it is read).\<close>

record ScreenState =
  sessionId :: string
  currentExerciseIndex :: nat
  sets :: "ActiveSet list"
  restTimer :: int
  isResting :: bool
  showRestModal :: bool

definition initialState :: ScreenState where
  "initialState =
     \<lparr>sessionId = '''', currentExerciseIndex = 0, sets = [], restTimer = 0,
      isResting = False, showRestModal = False\<rparr>"

text \<open>
  What an awaited promise does: it is fulfilled with a value or rejected with an error
  (which \<^verbatim>\<open>await\<close> throws). The storage client answers a query with an object
  \<^verbatim>\<open>{ data, error }\<close>; \<^verbatim>\<open>initializeWorkoutSession\<close> reads both fields.
\<close>

datatype 'a awaited = Fulfilled 'a | Rejected string

datatype 'a response = Response (resp_data: "'a option") (resp_error: "string option")

text \<open>What a handler does to the world outside the state, in the order it does it.\<close>

datatype effect =
    Alert string string
  | AlertWorkoutComplete string int
  | ConsoleError string
  | InsertSession string string string int
  | InsertSessionSet SessionSetRow
  | UpdateSession string int int

datatype js_error = TypeError

subsection \<open>JavaScript's truthiness, on nullable numbers\<close>

text \<open>\<^verbatim>\<open>!!v\<close> for a number or \<^verbatim>\<open>null\<close>: \<^verbatim>\<open>null\<close>, \<^verbatim>\<open>undefined\<close> and \<^verbatim>\<open>0\<close> are falsy.\<close>

definition truthy :: "'a::zero option \<Rightarrow> bool" where
  "truthy v = (case v of None \<Rightarrow> False | Some x \<Rightarrow> x \<noteq> 0)"

text \<open>\<^verbatim>\<open>v || d\<close> for a number \<^verbatim>\<open>d\<close>.\<close>

definition or_default :: "'a::zero option \<Rightarrow> 'a \<Rightarrow> 'a" where
  "or_default v d = (case v of None \<Rightarrow> d | Some x \<Rightarrow> if x \<noteq> 0 then x else d)"

text \<open>\<^verbatim>\<open>v || null\<close>.\<close>

definition or_null :: "'a::zero option \<Rightarrow> 'a option" where
  "or_null v = (case v of None \<Rightarrow> None | Some x \<Rightarrow> if x \<noteq> 0 then Some x else None)"

subsection \<open>The rest timer\<close>

text \<open>
  One firing of the interval of the rest timer's effect (lines 29-44). The effect sets
  the interval only when \<^verbatim>\<open>isResting && restTimer > 0\<close>; otherwise nothing fires and
  the state stays as it is.
\<close>

definition tick :: "ScreenState \<Rightarrow> ScreenState" where
  "tick s =
     (if isResting s \<and> restTimer s > 0 then
        (if restTimer s \<le> 1 then s\<lparr>isResting := False, showRestModal := False, restTimer := 0\<rparr>
         else s\<lparr>restTimer := restTimer s - 1\<rparr>)
      else s)"

text \<open>The \<^verbatim>\<open>onPress\<close> of the "Skip Rest" button (lines 315-318).\<close>

definition skipRest :: "ScreenState \<Rightarrow> ScreenState" where
  "skipRest s = s\<lparr>isResting := False, showRestModal := False\<rparr>"

text \<open>The \<^verbatim>\<open>onPress\<close> of the "+30s" button (line 323).\<close>

definition extendRest :: "ScreenState \<Rightarrow> ScreenState" where
  "extendRest s = s\<lparr>restTimer := restTimer s + 30\<rparr>"

subsection \<open>Building the sets of an exercise\<close>

text \<open>The object pushed by the body of the loop of \<^verbatim>\<open>initializeSetsForExercise\<close>
  (lines 80-90); \<^verbatim>\<open>exercise.reps ?? undefined\<close> keeps a number and turns \<^verbatim>\<open>null\<close>
  into \<^verbatim>\<open>undefined\<close>, both \<open>None\<close> here.\<close>

definition newSet :: "WorkoutExercise \<Rightarrow> int \<Rightarrow> ActiveSet" where
  "newSet ex i =
     \<lparr>set_id = None,
      exercise_id = we_exercise_id ex,
      exercise_name = name (exercise ex),
      set_number = i,
      weight_lbs = None,
      reps = None,
      rpe = None,
      completed = False,
      target_reps = we_reps ex,
      rest_seconds = Some (we_rest_seconds ex)\<rparr>"

text \<open>The loop \<^verbatim>\<open>for (let i = 1; i <= exercise.sets; i++) newSets.push(...)\<close>, from
  the value of \<^verbatim>\<open>i\<close> and the list built so far.\<close>

function initializeSetsLoop :: "WorkoutExercise \<Rightarrow> int \<Rightarrow> ActiveSet list \<Rightarrow> ActiveSet list" where
  "initializeSetsLoop ex i newSets =
     (if i \<le> we_sets ex then initializeSetsLoop ex (i + 1) (newSets @ [newSet ex i])
      else newSets)"
  by pat_completeness auto
termination
  by (relation "measure (\<lambda>(ex, i, newSets). nat (we_sets ex + 1 - i))") auto

declare initializeSetsLoop.simps [simp del]

text \<open>\<^verbatim>\<open>initializeSetsForExercise\<close> (lines 75-94). An index outside the workout's list
  reads \<^verbatim>\<open>undefined\<close>, and \<^verbatim>\<open>exercise.sets\<close> then throws a TypeError.\<close>

definition initializeSetsForExercise ::
  "WorkoutWithExercises \<Rightarrow> ScreenState \<Rightarrow> nat \<Rightarrow> js_error + ScreenState" where
  "initializeSetsForExercise workout s exerciseIndex =
     (if exerciseIndex < length (workout_exercises workout) then
        Inr (s\<lparr>sets := initializeSetsLoop (workout_exercises workout ! exerciseIndex) 1 []\<rparr>)
      else Inl TypeError)"

subsection \<open>Editing a set\<close>

text \<open>The pair \<^verbatim>\<open>(field, value)\<close> of \<^verbatim>\<open>updateSet\<close>, \<^verbatim>\<open>field: keyof ActiveSet\<close>, with
  a value of the field's type.\<close>

datatype field_value =
    F_id "string option"
  | F_exercise_id string
  | F_exercise_name string
  | F_set_number int
  | F_weight_lbs "real option"
  | F_reps "int option"
  | F_rpe "int option"
  | F_completed bool
  | F_target_reps "int option"
  | F_rest_seconds "int option"

text \<open>\<^verbatim>\<open>{ ...set, [field]: value }\<close>.\<close>

fun assign :: "field_value \<Rightarrow> ActiveSet \<Rightarrow> ActiveSet" where
  "assign (F_id v) st = st\<lparr>set_id := v\<rparr>"
| "assign (F_exercise_id v) st = st\<lparr>exercise_id := v\<rparr>"
| "assign (F_exercise_name v) st = st\<lparr>exercise_name := v\<rparr>"
| "assign (F_set_number v) st = st\<lparr>set_number := v\<rparr>"
| "assign (F_weight_lbs v) st = st\<lparr>weight_lbs := v\<rparr>"
| "assign (F_reps v) st = st\<lparr>reps := v\<rparr>"
| "assign (F_rpe v) st = st\<lparr>rpe := v\<rparr>"
| "assign (F_completed v) st = st\<lparr>completed := v\<rparr>"
| "assign (F_target_reps v) st = st\<lparr>target_reps := v\<rparr>"
| "assign (F_rest_seconds v) st = st\<lparr>rest_seconds := v\<rparr>"

text \<open>\<^verbatim>\<open>updateSet\<close> (lines 96-98):
  \<^verbatim>\<open>prev.map((set, index) => index === setIndex ? { ...set, [field]: value } : set)\<close>.\<close>

definition updateSet :: "ScreenState \<Rightarrow> nat \<Rightarrow> field_value \<Rightarrow> ScreenState" where
  "updateSet s setIndex fv =
     s\<lparr>sets := map (\<lambda>(index, st). if index = setIndex then assign fv st else st)
                  (enumerate 0 (sets s))\<rparr>"

subsection \<open>Completing a set\<close>

definition incompleteSetAlert :: effect where
  "incompleteSetAlert =
     Alert ''Incomplete Set'' ''Please enter weight and reps before completing the set''"

text \<open>The row of lines 110-119.\<close>

definition setRow :: "ScreenState \<Rightarrow> ActiveSet \<Rightarrow> SessionSetRow" where
  "setRow s st =
     \<lparr>row_session_id = sessionId s,
      row_exercise_id = exercise_id st,
      row_exercise_name = exercise_name st,
      row_set_number = set_number st,
      row_weight_lbs = weight_lbs st,
      row_reps = reps st,
      row_rpe = rpe st,
      row_completed = True\<rparr>"

text \<open>
  \<^verbatim>\<open>completeSet\<close> (lines 100-138). \<open>inserted\<close> is what the awaited insert does. The
  handler reads \<^verbatim>\<open>sets[setIndex]\<close> first: outside the list it is \<^verbatim>\<open>undefined\<close> and
  \<^verbatim>\<open>set.weight_lbs\<close> throws, outside the \<^verbatim>\<open>try\<close>. The answer of a fulfilled insert is
  not looked at. The two comparisons with \<^verbatim>\<open>length - 1\<close> are on integers, as in the
  source.
\<close>

definition completeSet ::
  "WorkoutWithExercises \<Rightarrow> ScreenState \<Rightarrow> nat \<Rightarrow> unit response awaited
     \<Rightarrow> js_error + (ScreenState \<times> effect list)" where
  "completeSet workout s setIndex inserted =
     (if setIndex \<ge> length (sets s) then Inl TypeError
      else
        let st = sets s ! setIndex in
        if \<not> truthy (weight_lbs st) \<or> \<not> truthy (reps st) then Inr (s, [incompleteSetAlert])
        else
          (case inserted of
             Rejected e \<Rightarrow>
               Inr (s, [InsertSessionSet (setRow s st), ConsoleError ''Error saving set:'',
                        Alert ''Error'' ''Failed to save set''])
           | Fulfilled r \<Rightarrow>
               let s1 = updateSet s setIndex (F_completed True);
                   isLastSet = (int setIndex = int (length (sets s)) - 1);
                   isLastExercise =
                     (int (currentExerciseIndex s) = int (length (workout_exercises workout)) - 1)
               in
                 if \<not> isLastSet \<or> \<not> isLastExercise then
                   Inr (s1\<lparr>restTimer := or_default (rest_seconds st) 60,
                           isResting := True, showRestModal := True\<rparr>,
                        [InsertSessionSet (setRow s st)])
                 else Inr (s1, [InsertSessionSet (setRow s st)])))"

subsection \<open>Moving on and finishing\<close>

text \<open>\<^verbatim>\<open>Math.round((endTime - startTime) / (1000 * 60))\<close> on times in milliseconds:
  the nearest integer, a half rounded up.\<close>

definition durationMinutes :: "int \<Rightarrow> int \<Rightarrow> int" where
  "durationMinutes startTime endTime = (2 * (endTime - startTime) + 60000) div 120000"

text \<open>\<^verbatim>\<open>finishWorkout\<close> (lines 150-173): no state is set; the answer of a fulfilled
  update is not looked at.\<close>

definition finishWorkout ::
  "WorkoutWithExercises \<Rightarrow> int \<Rightarrow> ScreenState \<Rightarrow> int \<Rightarrow> unit response awaited
     \<Rightarrow> ScreenState \<times> effect list" where
  "finishWorkout workout startTime s endTime updated =
     (let call = UpdateSession (sessionId s) endTime (durationMinutes startTime endTime) in
      case updated of
        Rejected e \<Rightarrow>
          (s, [call, ConsoleError ''Error finishing workout:'',
               Alert ''Error'' ''Failed to save workout completion''])
      | Fulfilled r \<Rightarrow>
          (s, [call, AlertWorkoutComplete (workout_name workout)
                       (durationMinutes startTime endTime)]))"

text \<open>\<^verbatim>\<open>nextExercise\<close> (lines 140-148).\<close>

definition nextExercise ::
  "WorkoutWithExercises \<Rightarrow> int \<Rightarrow> ScreenState \<Rightarrow> int \<Rightarrow> unit response awaited
     \<Rightarrow> js_error + (ScreenState \<times> effect list)" where
  "nextExercise workout startTime s endTime updated =
     (if int (currentExerciseIndex s) < int (length (workout_exercises workout)) - 1 then
        (let nextIndex = currentExerciseIndex s + 1 in
         case initializeSetsForExercise workout (s\<lparr>currentExerciseIndex := nextIndex\<rparr>) nextIndex of
           Inl err \<Rightarrow> Inl err
         | Inr s' \<Rightarrow> Inr (s', []))
      else Inr (finishWorkout workout startTime s endTime updated))"

subsection \<open>Starting the session\<close>

definition startFailed :: "effect list" where
  "startFailed =
     [ConsoleError ''Error initializing workout session:'',
      Alert ''Error'' ''Failed to start workout session'']"

text \<open>
  \<^verbatim>\<open>initializeWorkoutSession\<close> (lines 46-73), run once on the initial state. \<open>gotUser\<close>
  is what \<^verbatim>\<open>supabase.auth.getUser()\<close> does (the identifier of the user, if there is
  one), \<open>inserted\<close> what the insert of the session does (\<^verbatim>\<open>data.id\<close> when there is a
  \<^verbatim>\<open>data\<close>). Everything is inside the \<^verbatim>\<open>try\<close>: a TypeError of
  \<^verbatim>\<open>initializeSetsForExercise(0)\<close> is caught after \<^verbatim>\<open>setSessionId\<close>.
\<close>

definition initializeWorkoutSession ::
  "WorkoutWithExercises \<Rightarrow> int \<Rightarrow> ScreenState \<Rightarrow> string option awaited
     \<Rightarrow> string response awaited \<Rightarrow> ScreenState \<times> effect list" where
  "initializeWorkoutSession workout startTime s gotUser inserted =
     (case gotUser of
        Rejected e \<Rightarrow> (s, startFailed)
      | Fulfilled None \<Rightarrow> (s, [])
      | Fulfilled (Some user_id) \<Rightarrow>
          (let call = InsertSession user_id (workout_id workout) (workout_name workout) startTime in
           case inserted of
             Rejected e \<Rightarrow> (s, call # startFailed)
           | Fulfilled r \<Rightarrow>
               (case resp_error r of
                  Some e \<Rightarrow> (s, call # startFailed)
                | None \<Rightarrow>
                    (case resp_data r of
                       None \<Rightarrow> (s, call # startFailed)
                     | Some new_id \<Rightarrow>
                         (case initializeSetsForExercise workout (s\<lparr>sessionId := new_id\<rparr>) 0 of
                            Inl err \<Rightarrow> (s\<lparr>sessionId := new_id\<rparr>, call # startFailed)
                          | Inr s' \<Rightarrow> (s', [call]))))))"

subsection \<open>What the screen offers\<close>


subsection \<open>Sequences of operations\<close>

text \<open>
  The operations on a started session, with the arguments and the results of the
  awaited calls they depend on. The edits are those of the three fields the screen
  edits, with any value.
\<close>

datatype operation =
    UpdateWeight nat "real option"
  | UpdateReps nat "int option"
  | UpdateRpe nat "int option"
  | CompleteSet nat "unit response awaited"
  | Tick
  | SkipRest
  | ExtendRest
  | NextExercise int "unit response awaited"

text \<open>The state after one operation. A handler that throws before it sets any state
  leaves the state as it was.\<close>

fun perform :: "WorkoutWithExercises \<Rightarrow> int \<Rightarrow> ScreenState \<Rightarrow> operation \<Rightarrow> ScreenState" where
  "perform workout startTime s (UpdateWeight i v) = updateSet s i (F_weight_lbs v)"
| "perform workout startTime s (UpdateReps i v) = updateSet s i (F_reps v)"
| "perform workout startTime s (UpdateRpe i v) = updateSet s i (F_rpe v)"
| "perform workout startTime s (CompleteSet i inserted) =
     (case completeSet workout s i inserted of Inl err \<Rightarrow> s | Inr (s', effs) \<Rightarrow> s')"
| "perform workout startTime s Tick = tick s"
| "perform workout startTime s SkipRest = skipRest s"
| "perform workout startTime s ExtendRest = extendRest s"
| "perform workout startTime s (NextExercise endTime updated) =
     (case nextExercise workout startTime s endTime updated of Inl err \<Rightarrow> s | Inr (s', effs) \<Rightarrow> s')"

text \<open>The state after a sequence of operations, first to last.\<close>

definition performAll ::
  "WorkoutWithExercises \<Rightarrow> int \<Rightarrow> ScreenState \<Rightarrow> operation list \<Rightarrow> ScreenState" where
  "performAll workout startTime s ops = foldl (perform workout startTime) s ops"

text \<open>The state of a session that started: the user is signed in and the insert of the
  session answered with the new row and no error.\<close>

definition startedState :: "WorkoutWithExercises \<Rightarrow> int \<Rightarrow> string \<Rightarrow> string \<Rightarrow> ScreenState" where
  "startedState workout startTime user_id new_id =
     fst (initializeWorkoutSession workout startTime initialState
            (Fulfilled (Some user_id)) (Fulfilled (Response (Some new_id) None)))"

subsection \<open>A workout to run the screen on\<close>

text \<open>Two exercises: one set of bench press with 30 seconds of rest, then two sets of
  dips with a prescribed rest of 0 seconds.\<close>

definition benchPress :: WorkoutExercise where
  "benchPress =
     \<lparr>we_exercise_id = ''e1'', we_sets = 1, we_reps = Some 5, we_rest_seconds = 30,
      exercise = \<lparr>name = ''Bench Press''\<rparr>\<rparr>"

definition dips :: WorkoutExercise where
  "dips =
     \<lparr>we_exercise_id = ''e2'', we_sets = 2, we_reps = None, we_rest_seconds = 0,
      exercise = \<lparr>name = ''Dips''\<rparr>\<rparr>"

definition pushDay :: WorkoutWithExercises where
  "pushDay = \<lparr>workout_id = ''w1'', workout_name = ''Push Day'',
               workout_exercises = [benchPress, dips]\<rparr>"

text \<open>The set of the bench press, as the user filled it in, and the screen then.\<close>

definition filledSet :: ActiveSet where
  "filledSet = (newSet benchPress 1)\<lparr>weight_lbs := Some 135, reps := Some 5\<rparr>"

definition filledState :: ScreenState where
  "filledState = initialState\<lparr>sessionId := ''s1'', sets := [filledSet]\<rparr>"

text \<open>The screen after that set was completed: the rest timer runs.\<close>

definition restingState :: ScreenState where
  "restingState =
     filledState\<lparr>sets := [filledSet\<lparr>completed := True\<rparr>], restTimer := 30,
                 isResting := True, showRestModal := True\<rparr>"

text \<open>The screen on the dips, the first of the two sets filled in.\<close>

definition dipsState :: ScreenState where
  "dipsState =
     initialState\<lparr>sessionId := ''s1'', currentExerciseIndex := 1,
       sets := [(newSet dips 1)\<lparr>weight_lbs := Some 25, reps := Some 8\<rparr>, newSet dips 2]\<rparr>"

text \<open>An answer of the storage client with no error, and one with an error.\<close>

definition okAnswer :: "unit response" where
  "okAnswer = Response None None"

definition errorAnswer :: "unit response" where
  "errorAnswer = Response None (Some ''new row violates row-level security policy'')"

subsection \<open>A property of the states of a session\<close>

text \<open>While the screen rests the timer is positive, and the rest that every set of the
  list would start (\<^verbatim>\<open>set.rest_seconds || 60\<close>) is positive.\<close>

definition timerInvariant :: "ScreenState \<Rightarrow> bool" where
  "timerInvariant s =
     ((isResting s \<longrightarrow> 0 < restTimer s)
      \<and> list_all (\<lambda>st. 0 < or_default (rest_seconds st) 60) (sets s))"

text \<open>No exercise of the workout prescribes a negative rest.\<close>

definition restsNonNegative :: "WorkoutWithExercises \<Rightarrow> bool" where
  "restsNonNegative workout = list_all (\<lambda>ex. 0 \<le> we_rest_seconds ex) (workout_exercises workout)"

section \<open>Properties\<close>

subsection \<open>Auxiliary facts\<close>

lemma map_enumerate_update:
  "map (\<lambda>(index, x). if index = k then f x else x) (enumerate 0 xs) =
     (if k < length xs then xs[k := f (xs ! k)] else xs)"
  by (auto simp: list_eq_iff_nth_eq nth_enumerate_eq nth_list_update)

lemma sets_updateSet:
  "sets (updateSet s k fv) =
     (if k < length (sets s) then (sets s)[k := assign fv (sets s ! k)] else sets s)"
  by (simp add: updateSet_def map_enumerate_update)

lemma updateSet_frame:
  "sessionId (updateSet s k fv) = sessionId s"
  "currentExerciseIndex (updateSet s k fv) = currentExerciseIndex s"
  "restTimer (updateSet s k fv) = restTimer s"
  "isResting (updateSet s k fv) = isResting s"
  "showRestModal (updateSet s k fv) = showRestModal s"
  by (simp_all add: updateSet_def)

text \<open>The loop pushes one set for each of \<open>i, i + 1, ..., exercise.sets\<close>.\<close>

lemma initializeSetsLoop_upto:
  "initializeSetsLoop ex i acc = acc @ map (newSet ex) [i..we_sets ex]"
proof (induction ex i acc rule: initializeSetsLoop.induct)
  case (1 ex i newSets)
  show ?case
  proof (cases "i \<le> we_sets ex")
    case True
    then show ?thesis
      using 1 by (subst initializeSetsLoop.simps) (simp add: upto_rec1)
  next
    case False
    then show ?thesis
      by (subst initializeSetsLoop.simps) simp
  qed
qed

lemma length_initializeSetsLoop: "length (initializeSetsLoop ex 1 []) = nat (we_sets ex)"
  by (simp add: initializeSetsLoop_upto)

lemma nth_initializeSetsLoop:
  "k < length (initializeSetsLoop ex 1 []) \<Longrightarrow>
     initializeSetsLoop ex 1 [] ! k = newSet ex (int k + 1)"
  by (simp add: initializeSetsLoop_upto add.commute)

lemmas example_defs =
  filledState_def filledSet_def restingState_def dipsState_def pushDay_def benchPress_def
  dips_def initialState_def newSet_def okAnswer_def errorAnswer_def

text \<open>With the set of the bench press filled in, a fulfilled insert completes the set
  and starts the rest of 30 seconds, whatever the answer holds.\<close>

lemma completeSet_filledState:
  "completeSet pushDay filledState 0 (Fulfilled r) =
     Inr (restingState, [InsertSessionSet (setRow filledState filledSet)])"
  by (simp add: completeSet_def example_defs truthy_def or_default_def updateSet_def
      enumerate_eq_zip Let_def)

text \<open>The guard of \<^verbatim>\<open>completeSet\<close>: a falsy weight or a falsy number of repetitions
  ends the handler after the alert.\<close>

lemma completeSet_falsy:
  assumes "i < length (sets s)"
    and "\<not> truthy (weight_lbs (sets s ! i)) \<or> \<not> truthy (reps (sets s ! i))"
  shows "completeSet workout s i inserted = Inr (s, [incompleteSetAlert])"
  using assms by (simp add: completeSet_def Let_def)

text \<open>A rejected insert is caught: the call was issued, the error is logged and shown,
  and no state is set.\<close>

lemma completeSet_rejected:
  assumes "i < length (sets s)"
    and "truthy (weight_lbs (sets s ! i))" and "truthy (reps (sets s ! i))"
  shows "completeSet workout s i (Rejected e) =
           Inr (s, [InsertSessionSet (setRow s (sets s ! i)), ConsoleError ''Error saving set:'',
                    Alert ''Error'' ''Failed to save set''])"
  using assms by (simp add: completeSet_def Let_def)

lemma tick_countdown:
  "isResting s \<Longrightarrow> restTimer s = int n \<Longrightarrow> 0 < n \<Longrightarrow>
     restTimer ((tick ^^ n) s) = 0 \<and> \<not> isResting ((tick ^^ n) s)"
proof (induction n arbitrary: s)
  case 0
  then show ?case by simp
next
  case (Suc n)
  show ?case
  proof (cases n)
    case 0
    with Suc.prems show ?thesis by (simp add: tick_def)
  next
    case (Suc m)
    with Suc.prems have "isResting (tick s)" "restTimer (tick s) = int n"
      by (simp_all add: tick_def)
    with Suc.IH [of "tick s"] Suc show ?thesis
      by (simp add: funpow_swap1)
  qed
qed

text \<open>The index that \<^verbatim>\<open>nextExercise\<close> passes on is inside the list when its test
  holds: the handler does not throw.\<close>

lemma nextExercise_no_error: "nextExercise workout startTime s endTime updated \<noteq> Inl err"
  by (auto simp: nextExercise_def initializeSetsForExercise_def finishWorkout_def Let_def
      split: sum.splits if_splits)

subsection \<open>The timer invariant is kept by every operation\<close>

lemma invariant_updateSet:
  assumes "timerInvariant s" and "rest_seconds (assign fv (sets s ! i)) = rest_seconds (sets s ! i)"
  shows "timerInvariant (updateSet s i fv)"
proof -
  have "list_all (\<lambda>st. 0 < or_default (rest_seconds st) 60) (sets (updateSet s i fv))"
  proof (cases "i < length (sets s)")
    case True
    with assms show ?thesis
      by (auto simp: timerInvariant_def sets_updateSet list_all_length nth_list_update)
  next
    case False
    with assms(1) show ?thesis
      by (simp add: timerInvariant_def sets_updateSet)
  qed
  with assms(1) show ?thesis
    by (simp add: timerInvariant_def updateSet_frame)
qed

lemma invariant_tick: "timerInvariant s \<Longrightarrow> timerInvariant (tick s)"
  by (auto simp: timerInvariant_def tick_def)

lemma invariant_skipRest: "timerInvariant s \<Longrightarrow> timerInvariant (skipRest s)"
  by (simp add: timerInvariant_def skipRest_def)

lemma invariant_extendRest: "timerInvariant s \<Longrightarrow> timerInvariant (extendRest s)"
  by (auto simp: timerInvariant_def extendRest_def)

lemma invariant_completeSet:
  assumes "timerInvariant s" and "completeSet workout s i inserted = Inr (s', effs)"
  shows "timerInvariant s'"
proof (cases "i < length (sets s) \<and> truthy (weight_lbs (sets s ! i)) \<and> truthy (reps (sets s ! i))")
  case False
  with assms show ?thesis
    by (auto simp: completeSet_def Let_def split: if_splits)
next
  case True
  then have i: "i < length (sets s)" by simp
  from assms(1) i have pos: "0 < or_default (rest_seconds (sets s ! i)) 60"
    by (simp add: timerInvariant_def list_all_length)
  have upd: "timerInvariant (updateSet s i (F_completed True))"
    using assms(1) by (rule invariant_updateSet) simp
  show ?thesis
  proof (cases inserted)
    case (Rejected e)
    with True assms show ?thesis by (simp add: completeSet_def Let_def)
  next
    case (Fulfilled r)
    with True assms(2) have
      "s' = updateSet s i (F_completed True) \<or>
       s' = (updateSet s i (F_completed True))
              \<lparr>restTimer := or_default (rest_seconds (sets s ! i)) 60,
                isResting := True, showRestModal := True\<rparr>"
      by (auto simp: completeSet_def Let_def split: if_splits)
    with upd pos show ?thesis
      by (auto simp: timerInvariant_def)
  qed
qed

lemma fresh_sets_rest:
  assumes "0 \<le> we_rest_seconds ex"
  shows "list_all (\<lambda>st. 0 < or_default (rest_seconds st) 60) (initializeSetsLoop ex 1 [])"
  using assms
  by (simp add: initializeSetsLoop_upto list_all_iff newSet_def or_default_def)

lemma invariant_initializeSets:
  assumes "restsNonNegative workout" and "isResting s \<longrightarrow> 0 < restTimer s"
    and "initializeSetsForExercise workout s k = Inr s'"
  shows "timerInvariant s'"
proof -
  from assms(3) have k: "k < length (workout_exercises workout)"
    and s': "s' = s\<lparr>sets := initializeSetsLoop (workout_exercises workout ! k) 1 []\<rparr>"
    by (auto simp: initializeSetsForExercise_def split: if_splits)
  from assms(1) k have "0 \<le> we_rest_seconds (workout_exercises workout ! k)"
    by (simp add: restsNonNegative_def list_all_length)
  then show ?thesis
    using assms(2) s' by (simp add: timerInvariant_def fresh_sets_rest)
qed

lemma invariant_nextExercise:
  assumes "restsNonNegative workout" and "timerInvariant s"
    and "nextExercise workout startTime s endTime updated = Inr (s', effs)"
  shows "timerInvariant s'"
proof (cases "int (currentExerciseIndex s) < int (length (workout_exercises workout)) - 1")
  case True
  with assms(3) have a:
    "initializeSetsForExercise workout (s\<lparr>currentExerciseIndex := currentExerciseIndex s + 1\<rparr>)
       (currentExerciseIndex s + 1) = Inr s'"
    by (auto simp: nextExercise_def Let_def split: sum.splits)
  from assms(2) have b:
    "isResting (s\<lparr>currentExerciseIndex := currentExerciseIndex s + 1\<rparr>) \<longrightarrow>
       0 < restTimer (s\<lparr>currentExerciseIndex := currentExerciseIndex s + 1\<rparr>)"
    by (simp add: timerInvariant_def)
  show ?thesis
    by (rule invariant_initializeSets [OF assms(1) b a])
next
  case False
  with assms(3) have "s' = s"
    by (auto simp: nextExercise_def finishWorkout_def Let_def split: awaited.splits)
  with assms(2) show ?thesis by simp
qed

lemma invariant_perform:
  assumes "restsNonNegative workout" and "timerInvariant s"
  shows "timerInvariant (perform workout startTime s op)"
proof (cases op)
  case (CompleteSet i inserted)
  with assms(2) show ?thesis
    by (auto split: sum.splits dest: invariant_completeSet)
next
  case (NextExercise endTime updated)
  with assms show ?thesis
    by (auto split: sum.splits dest: invariant_nextExercise)
qed (use assms(2) in \<open>simp_all add: invariant_updateSet invariant_tick invariant_skipRest
      invariant_extendRest\<close>)

lemma invariant_performAll:
  assumes "restsNonNegative workout" and "timerInvariant s"
  shows "timerInvariant (performAll workout startTime s ops)"
  using assms(2) unfolding performAll_def
  by (induction ops arbitrary: s) (simp_all add: invariant_perform [OF assms(1)])

lemma invariant_startedState:
  assumes "restsNonNegative workout"
  shows "timerInvariant (startedState workout startTime user_id new_id)"
proof (cases "initializeSetsForExercise workout (initialState\<lparr>sessionId := new_id\<rparr>) 0")
  case (Inl err)
  then show ?thesis
    by (simp add: startedState_def initializeWorkoutSession_def timerInvariant_def
        initialState_def)
next
  case (Inr s')
  have "isResting (initialState\<lparr>sessionId := new_id\<rparr>) \<longrightarrow>
          0 < restTimer (initialState\<lparr>sessionId := new_id\<rparr>)"
    by (simp add: initialState_def)
  then have "timerInvariant s'"
    using Inr by (rule invariant_initializeSets [OF assms])
  with Inr show ?thesis
    by (simp add: startedState_def initializeWorkoutSession_def)
qed

subsection \<open>The example session, step by step\<close>

lemma performAll_fill:
  "performAll pushDay 0 (startedState pushDay 0 ''u1'' ''s1'')
     [UpdateWeight 0 (Some 135), UpdateReps 0 (Some 5)] = filledState"
  by (simp add: performAll_def startedState_def initializeWorkoutSession_def
      initializeSetsForExercise_def initializeSetsLoop_upto updateSet_def enumerate_eq_zip
      example_defs)

lemma performAll_append:
  "performAll workout startTime s (ops @ ops') =
     performAll workout startTime (performAll workout startTime s ops) ops'"
  by (simp add: performAll_def)

lemma performAll_rest_skipped:
  "performAll pushDay 0 (startedState pushDay 0 ''u1'' ''s1'')
     [UpdateWeight 0 (Some 135), UpdateReps 0 (Some 5), CompleteSet 0 (Fulfilled okAnswer),
      SkipRest] = skipRest restingState"
  using performAll_append [of pushDay 0 "startedState pushDay 0 ''u1'' ''s1''"
      "[UpdateWeight 0 (Some 135), UpdateReps 0 (Some 5)]"
      "[CompleteSet 0 (Fulfilled okAnswer), SkipRest]"]
  by (simp add: performAll_fill) (simp add: performAll_def completeSet_filledState)

subsection \<open>C1: a failed insert of a set\<close>

text \<open>
  Claim C1 says that a set is never left marked complete when its persistence call did
  not succeed. The storage client reports a failed query in the \<^verbatim>\<open>error\<close> field of its
  answer, which is why \<^verbatim>\<open>initializeWorkoutSession\<close> has \<^verbatim>\<open>if (error) throw error\<close>
  (line 64). \<^verbatim>\<open>completeSet\<close> awaits the insert and never reads the answer, so its
  \<^verbatim>\<open>catch\<close> runs for a rejected promise only (\<open>completeSet_rejected\<close>). At the
  filled-in bench press set, with an insert that is answered with an error, the handler
  ends with the set marked complete and the rest timer started, and shows no alert.
\<close>

theorem completeSet_marks_complete_on_error_answer:
  "completeSet pushDay filledState 0 (Fulfilled errorAnswer) =
     Inr (restingState, [InsertSessionSet (setRow filledState filledSet)])
   \<and> resp_error errorAnswer \<noteq> None
   \<and> \<not> completed (sets filledState ! 0)
   \<and> completed (sets restingState ! 0)"
  by (simp add: completeSet_filledState) (simp add: example_defs)

theorem completeSet_marks_complete_on_error_answer_witness:
  "\<exists>s' effs. completeSet pushDay filledState 0 (Fulfilled errorAnswer) = Inr (s', effs)
     \<and> completed (sets s' ! 0)"
  using completeSet_marks_complete_on_error_answer by simp

subsection \<open>C2: skipping the rest\<close>

text \<open>
  Claim C2 says that \<^verbatim>\<open>skipRest\<close> sets \<^verbatim>\<open>restTimer = 0\<close> and \<^verbatim>\<open>isResting = false\<close>.
  The handler of the button calls \<^verbatim>\<open>setIsResting(false)\<close> and
  \<^verbatim>\<open>setShowRestModal(false)\<close> and nothing else: skipping a rest of 30 seconds leaves
  \<^verbatim>\<open>restTimer\<close> at 30.
\<close>

theorem skipRest_keeps_restTimer_counterexample:
  "\<not> (restTimer (skipRest restingState) = 0 \<and> isResting (skipRest restingState) = False)"
  by (simp add: skipRest_def example_defs)

text \<open>
  Claim C2, amended: in a single call and whatever time remains, \<^verbatim>\<open>skipRest\<close> sets
  \<^verbatim>\<open>isResting = false\<close> and hides the rest modal; it leaves \<^verbatim>\<open>restTimer\<close> and the
  rest of the state as they are; a second call changes nothing.
\<close>

theorem skipRest_effect:
  "isResting (skipRest s) = False \<and> showRestModal (skipRest s) = False
   \<and> restTimer (skipRest s) = restTimer s
   \<and> sets (skipRest s) = sets s
   \<and> currentExerciseIndex (skipRest s) = currentExerciseIndex s
   \<and> sessionId (skipRest s) = sessionId s
   \<and> skipRest (skipRest s) = skipRest s"
  by (simp add: skipRest_def)

subsection \<open>C3: the timer and the resting flag\<close>

text \<open>
  Claim C3 says that in every state reached from a started session \<^verbatim>\<open>restTimer\<close> is
  non-zero if and only if \<^verbatim>\<open>isResting\<close> is true. It fails after a skipped rest: the
  user fills in the bench press set, completes it (the rest of 30 seconds starts) and
  presses "Skip Rest"; the screen no longer rests and \<^verbatim>\<open>restTimer\<close> is still 30. It
  also fails after \<^verbatim>\<open>extendRest\<close> on the started session, which does not rest.
\<close>

theorem timer_without_rest_counterexample:
  "\<not> (restTimer (performAll pushDay 0 (startedState pushDay 0 ''u1'' ''s1'')
                  [UpdateWeight 0 (Some 135), UpdateReps 0 (Some 5),
                   CompleteSet 0 (Fulfilled okAnswer), SkipRest]) \<noteq> 0
        \<longleftrightarrow> isResting (performAll pushDay 0 (startedState pushDay 0 ''u1'' ''s1'')
                  [UpdateWeight 0 (Some 135), UpdateReps 0 (Some 5),
                   CompleteSet 0 (Fulfilled okAnswer), SkipRest]))
   \<and> \<not> (restTimer (performAll pushDay 0 (startedState pushDay 0 ''u1'' ''s1'') [ExtendRest]) \<noteq> 0
        \<longleftrightarrow> isResting (performAll pushDay 0 (startedState pushDay 0 ''u1'' ''s1'') [ExtendRest]))"
proof -
  have "restTimer (performAll pushDay 0 (startedState pushDay 0 ''u1'' ''s1'') [ExtendRest]) = 30"
    and "\<not> isResting (performAll pushDay 0 (startedState pushDay 0 ''u1'' ''s1'') [ExtendRest])"
    by (simp_all add: performAll_def extendRest_def startedState_def initializeWorkoutSession_def
        initializeSetsForExercise_def pushDay_def initialState_def)
  then show ?thesis
    by (simp add: performAll_rest_skipped) (simp add: skipRest_def example_defs)
qed

text \<open>
  Claim C3, amended: for a workout whose prescribed rests are not negative, in every
  state reached from a started session by any sequence of edits of weight, repetitions
  and effort, \<^verbatim>\<open>completeSet\<close>, \<^verbatim>\<open>tick\<close>, \<^verbatim>\<open>skipRest\<close>, \<^verbatim>\<open>extendRest\<close> and
  \<^verbatim>\<open>nextExercise\<close>, whatever the store answers: if \<^verbatim>\<open>isResting\<close> is true then
  \<^verbatim>\<open>restTimer\<close> is positive. (The converse does not hold.)
\<close>

theorem resting_implies_timer_running:
  assumes "restsNonNegative workout"
  shows "isResting (performAll workout startTime (startedState workout startTime user_id new_id) ops)
         \<longrightarrow> 0 < restTimer (performAll workout startTime
                              (startedState workout startTime user_id new_id) ops)"
proof -
  have "timerInvariant (performAll workout startTime
          (startedState workout startTime user_id new_id) ops)"
    using assms by (simp add: invariant_performAll invariant_startedState)
  then show ?thesis by (simp add: timerInvariant_def)
qed

theorem resting_implies_timer_running_witness:
  "restsNonNegative pushDay
   \<and> isResting (performAll pushDay 0 (startedState pushDay 0 ''u1'' ''s1'')
        [UpdateWeight 0 (Some 135), UpdateReps 0 (Some 5), CompleteSet 0 (Fulfilled okAnswer)])
   \<and> 0 < restTimer (performAll pushDay 0 (startedState pushDay 0 ''u1'' ''s1'')
        [UpdateWeight 0 (Some 135), UpdateReps 0 (Some 5), CompleteSet 0 (Fulfilled okAnswer)])"
proof -
  let ?s = "performAll pushDay 0 (startedState pushDay 0 ''u1'' ''s1'')
        [UpdateWeight 0 (Some 135), UpdateReps 0 (Some 5), CompleteSet 0 (Fulfilled okAnswer)]"
  have a: "restsNonNegative pushDay"
    by (simp add: restsNonNegative_def example_defs)
  have "?s = restingState"
    using performAll_append [of pushDay 0 "startedState pushDay 0 ''u1'' ''s1''"
      "[UpdateWeight 0 (Some 135), UpdateReps 0 (Some 5)]"
      "[CompleteSet 0 (Fulfilled okAnswer)]"]
    by (simp add: performAll_fill) (simp add: performAll_def completeSet_filledState)
  then have b: "isResting ?s" by (simp add: example_defs)
  from resting_implies_timer_running [OF a, of 0 "''u1''" "''s1''"
      "[UpdateWeight 0 (Some 135), UpdateReps 0 (Some 5), CompleteSet 0 (Fulfilled okAnswer)]"]
    a b
  show ?thesis by simp
qed

subsection \<open>C4: the rest after a completed set\<close>

text \<open>
  Claim C4 says that the rest timer is set to the set's \<^verbatim>\<open>rest_seconds\<close>, and to 60
  when \<^verbatim>\<open>rest_seconds\<close> is unset. The handler computes \<^verbatim>\<open>set.rest_seconds || 60\<close>,
  which is 60 for a \<^verbatim>\<open>rest_seconds\<close> of 0 as well: completing the first of the two
  sets of dips, whose prescribed rest is 0 seconds, starts a rest of 60 seconds.
\<close>

theorem rest_of_zero_counterexample:
  "rest_seconds (sets dipsState ! 0) = Some 0
   \<and> resp_error okAnswer = None
   \<and> map_sum id (\<lambda>(s', effs). (isResting s', restTimer s'))
       (completeSet pushDay dipsState 0 (Fulfilled okAnswer)) = Inr (True, 60)"
  by (simp add: completeSet_def example_defs truthy_def or_default_def updateSet_def
      enumerate_eq_zip Let_def)

text \<open>
  Claim C4, amended: after a \<^verbatim>\<open>completeSet(i)\<close> whose insert succeeded (a set of the
  list with weight and repetitions that are neither null nor 0, an answer with no
  error), set \<open>i\<close> is completed, and if \<open>i\<close> is not the last set of the last exercise
  then \<^verbatim>\<open>isResting\<close> is true and \<^verbatim>\<open>restTimer\<close> is the set's \<^verbatim>\<open>rest_seconds\<close>, or 60
  when \<^verbatim>\<open>rest_seconds\<close> is unset or 0; for the last set of the last exercise no rest
  timer is started (\<^verbatim>\<open>isResting\<close>, \<^verbatim>\<open>restTimer\<close> and the modal stay as they were).
\<close>

theorem completeSet_starts_rest:
  assumes "i < length (sets s)"
    and "weight_lbs (sets s ! i) = Some w" and "w \<noteq> 0"
    and "reps (sets s ! i) = Some n" and "n \<noteq> 0"
    and "resp_error r = None"
  shows "\<exists>s'. completeSet workout s i (Fulfilled r) =
                 Inr (s', [InsertSessionSet (setRow s (sets s ! i))])
           \<and> completed (sets s' ! i)
           \<and> (if int i = int (length (sets s)) - 1
                 \<and> int (currentExerciseIndex s) = int (length (workout_exercises workout)) - 1
              then isResting s' = isResting s \<and> restTimer s' = restTimer s
                   \<and> showRestModal s' = showRestModal s
              else isResting s'
                   \<and> restTimer s' =
                       (case rest_seconds (sets s ! i) of
                          None \<Rightarrow> 60 | Some v \<Rightarrow> if v = 0 then 60 else v))"
proof -
  from assms have t: "truthy (weight_lbs (sets s ! i))" "truthy (reps (sets s ! i))"
    by (simp_all add: truthy_def)
  have c: "completed (sets (updateSet s i (F_completed True)) ! i)"
    using assms(1) by (simp add: sets_updateSet)
  have d: "or_default (rest_seconds (sets s ! i)) 60 =
             (case rest_seconds (sets s ! i) of None \<Rightarrow> 60 | Some v \<Rightarrow> if v = 0 then 60 else v)"
    by (simp add: or_default_def split: option.splits)
  show ?thesis
  proof (cases "int i = int (length (sets s)) - 1
                 \<and> int (currentExerciseIndex s) = int (length (workout_exercises workout)) - 1")
    case True
    with assms(1) t have "completeSet workout s i (Fulfilled r) =
        Inr (updateSet s i (F_completed True), [InsertSessionSet (setRow s (sets s ! i))])"
      by (simp add: completeSet_def Let_def)
    with True c show ?thesis
      by (simp add: updateSet_frame)
  next
    case False
    with assms(1) t have "completeSet workout s i (Fulfilled r) =
        Inr ((updateSet s i (F_completed True))
               \<lparr>restTimer := or_default (rest_seconds (sets s ! i)) 60,
                 isResting := True, showRestModal := True\<rparr>,
             [InsertSessionSet (setRow s (sets s ! i))])"
      by (auto simp: completeSet_def Let_def)
    with False c d show ?thesis
      by auto
  qed
qed

theorem completeSet_starts_rest_witness:
  "\<exists>s'. completeSet pushDay filledState 0 (Fulfilled okAnswer) =
           Inr (s', [InsertSessionSet (setRow filledState (sets filledState ! 0))])
     \<and> completed (sets s' ! 0) \<and> isResting s' \<and> restTimer s' = 30"
proof -
  have a: "0 < length (sets filledState)"
    and b: "weight_lbs (sets filledState ! 0) = Some 135" "(135::real) \<noteq> 0"
    and c: "reps (sets filledState ! 0) = Some 5" "(5::int) \<noteq> 0"
    and d: "resp_error okAnswer = None"
    and e: "rest_seconds (sets filledState ! 0) = Some 30"
    and f: "length (sets filledState) = 1" "currentExerciseIndex filledState = 0"
      "length (workout_exercises pushDay) = 2"
    by (simp_all add: example_defs)
  from completeSet_starts_rest [OF a b c d, of pushDay] e f
  show ?thesis by simp
qed

subsection \<open>C5: a set with no weight or no repetitions\<close>

text \<open>
  Claim C5: for a set \<open>i\<close> of the list whose weight or repetitions are null,
  \<^verbatim>\<open>completeSet(i)\<close> ends with the validation alert, whatever the store would have
  answered: the alert is all it does (no insert is issued) and the state it returns is
  the state it was given, so the set is not completed and no rest starts.
\<close>

theorem completeSet_rejects_null:
  assumes "i < length (sets s)"
    and "weight_lbs (sets s ! i) = None \<or> reps (sets s ! i) = None"
  shows "completeSet workout s i inserted =
           Inr (s, [Alert ''Incomplete Set''
                      ''Please enter weight and reps before completing the set''])"
proof -
  from assms(2) have "\<not> truthy (weight_lbs (sets s ! i)) \<or> \<not> truthy (reps (sets s ! i))"
    by (auto simp: truthy_def)
  with assms(1) show ?thesis
    by (simp add: completeSet_falsy incompleteSetAlert_def)
qed

theorem completeSet_rejects_null_witness:
  "0 < length (sets (startedState pushDay 0 ''u1'' ''s1''))
   \<and> weight_lbs (sets (startedState pushDay 0 ''u1'' ''s1'') ! 0) = None
   \<and> completeSet pushDay (startedState pushDay 0 ''u1'' ''s1'') 0 (Fulfilled okAnswer) =
       Inr (startedState pushDay 0 ''u1'' ''s1'',
            [Alert ''Incomplete Set''
               ''Please enter weight and reps before completing the set''])"
proof -
  have a: "0 < length (sets (startedState pushDay 0 ''u1'' ''s1''))"
    by (simp add: startedState_def initializeWorkoutSession_def initializeSetsForExercise_def
        example_defs length_initializeSetsLoop)
  have b: "weight_lbs (sets (startedState pushDay 0 ''u1'' ''s1'') ! 0) = None"
    by (simp add: startedState_def initializeWorkoutSession_def initializeSetsForExercise_def
        pushDay_def nth_initializeSetsLoop length_initializeSetsLoop benchPress_def newSet_def)
  from a b completeSet_rejects_null [OF a disjI1 [OF b], of pushDay "Fulfilled okAnswer"]
  show ?thesis by simp
qed

subsection \<open>C6: the countdown\<close>

text \<open>
  Claim C6: while the screen is resting with \<^verbatim>\<open>restTimer > 0\<close>, a tick takes exactly 1
  from \<^verbatim>\<open>restTimer\<close> and \<^verbatim>\<open>isResting\<close> is false after it exactly when the timer
  reached 0; hence \<^verbatim>\<open>restTimer\<close> ticks from a resting state with \<^verbatim>\<open>restTimer = n > 0\<close>
  end with \<^verbatim>\<open>restTimer = 0\<close> and \<^verbatim>\<open>isResting = false\<close>.
\<close>

theorem tick_counts_down:
  assumes "isResting s" and "0 < restTimer s"
  shows "restTimer (tick s) = restTimer s - 1
         \<and> isResting (tick s) = (restTimer (tick s) \<noteq> 0)
         \<and> restTimer ((tick ^^ nat (restTimer s)) s) = 0
         \<and> \<not> isResting ((tick ^^ nat (restTimer s)) s)"
proof -
  from assms have "restTimer (tick s) = restTimer s - 1"
    and "isResting (tick s) = (restTimer (tick s) \<noteq> 0)"
    by (auto simp: tick_def)
  moreover from assms tick_countdown [of s "nat (restTimer s)"]
  have "restTimer ((tick ^^ nat (restTimer s)) s) = 0 \<and> \<not> isResting ((tick ^^ nat (restTimer s)) s)"
    by simp
  ultimately show ?thesis by simp
qed

theorem tick_counts_down_witness:
  "isResting restingState \<and> 0 < restTimer restingState
   \<and> restTimer (tick restingState) = 29
   \<and> isResting (tick restingState)
   \<and> restTimer ((tick ^^ 30) restingState) = 0
   \<and> \<not> isResting ((tick ^^ 30) restingState)"
proof -
  have a: "isResting restingState" and b: "0 < restTimer restingState"
    and c: "restTimer restingState = 30"
    by (simp_all add: example_defs)
  from tick_counts_down [OF a b] a b c show ?thesis by simp
qed

subsection \<open>C7: a freshly started session\<close>

text \<open>
  Claim C7: for a workout whose list of exercises is not empty (its first exercise
  prescribing a set count that is not negative), the session that started (the user is
  signed in, the insert answered with the new row and no error) has
  \<^verbatim>\<open>currentExerciseIndex = 0\<close> and as many sets as the first exercise prescribes, built
  by the loop of \<^verbatim>\<open>initializeSetsForExercise\<close>; entry \<open>k\<close> has \<^verbatim>\<open>set_number = k + 1\<close>,
  no weight, repetitions or effort, is not completed, and carries the exercise's
  repetitions as \<^verbatim>\<open>target_reps\<close> and its \<^verbatim>\<open>rest_seconds\<close>.
\<close>

theorem fresh_session:
  assumes "workout_exercises workout = ex # rest" and "0 \<le> we_sets ex"
  shows "\<exists>s. initializeWorkoutSession workout startTime initialState
                (Fulfilled (Some user_id)) (Fulfilled (Response (Some new_id) None)) =
              (s, [InsertSession user_id (workout_id workout) (workout_name workout) startTime])
           \<and> sessionId s = new_id
           \<and> currentExerciseIndex s = 0
           \<and> sets s = initializeSetsLoop ex 1 []
           \<and> int (length (sets s)) = we_sets ex
           \<and> (\<forall>k < length (sets s).
                 sets s ! k =
                   \<lparr>set_id = None, exercise_id = we_exercise_id ex,
                    exercise_name = name (exercise ex), set_number = int k + 1,
                    weight_lbs = None, reps = None, rpe = None, completed = False,
                    target_reps = we_reps ex, rest_seconds = Some (we_rest_seconds ex)\<rparr>)"
proof -
  let ?s = "initialState\<lparr>sessionId := new_id, sets := initializeSetsLoop ex 1 []\<rparr>"
  from assms(1) have "initializeWorkoutSession workout startTime initialState
      (Fulfilled (Some user_id)) (Fulfilled (Response (Some new_id) None)) =
      (?s, [InsertSession user_id (workout_id workout) (workout_name workout) startTime])"
    by (simp add: initializeWorkoutSession_def initializeSetsForExercise_def)
  moreover have "currentExerciseIndex ?s = 0" "sessionId ?s = new_id"
    "sets ?s = initializeSetsLoop ex 1 []"
    by (simp_all add: initialState_def)
  moreover from assms(2) have "int (length (sets ?s)) = we_sets ex"
    by (simp add: length_initializeSetsLoop)
  moreover have "\<forall>k < length (sets ?s). sets ?s ! k =
                   \<lparr>set_id = None, exercise_id = we_exercise_id ex,
                    exercise_name = name (exercise ex), set_number = int k + 1,
                    weight_lbs = None, reps = None, rpe = None, completed = False,
                    target_reps = we_reps ex, rest_seconds = Some (we_rest_seconds ex)\<rparr>"
    by (simp add: nth_initializeSetsLoop newSet_def)
  ultimately show ?thesis by blast
qed

theorem fresh_session_witness:
  "\<exists>s. initializeWorkoutSession (pushDay\<lparr>workout_exercises := [dips, benchPress]\<rparr>) 0 initialState
          (Fulfilled (Some ''u1'')) (Fulfilled (Response (Some ''s1'') None)) =
          (s, [InsertSession ''u1'' ''w1'' ''Push Day'' 0])
     \<and> currentExerciseIndex s = 0
     \<and> length (sets s) = 2
     \<and> sets s ! 1 =
         \<lparr>set_id = None, exercise_id = ''e2'', exercise_name = ''Dips'', set_number = 2,
          weight_lbs = None, reps = None, rpe = None, completed = False,
          target_reps = None, rest_seconds = Some 0\<rparr>"
proof -
  have a: "workout_exercises (pushDay\<lparr>workout_exercises := [dips, benchPress]\<rparr>) = dips # [benchPress]"
    by simp
  have b: "0 \<le> we_sets dips" by (simp add: dips_def)
  from fresh_session [OF a b, of 0 "''u1''" "''s1''"]
  obtain s where s: "initializeWorkoutSession (pushDay\<lparr>workout_exercises := [dips, benchPress]\<rparr>) 0
        initialState (Fulfilled (Some ''u1'')) (Fulfilled (Response (Some ''s1'') None)) =
          (s, [InsertSession ''u1'' ''w1'' ''Push Day'' 0])"
    and "currentExerciseIndex s = 0" and l: "int (length (sets s)) = we_sets dips"
    and n: "\<forall>k < length (sets s). sets s ! k =
                   \<lparr>set_id = None, exercise_id = we_exercise_id dips,
                    exercise_name = name (exercise dips), set_number = int k + 1,
                    weight_lbs = None, reps = None, rpe = None, completed = False,
                    target_reps = we_reps dips, rest_seconds = Some (we_rest_seconds dips)\<rparr>"
    by (auto simp: pushDay_def)
  from l have l2: "length (sets s) = 2" by (simp add: dips_def)
  with n have "sets s ! 1 =
         \<lparr>set_id = None, exercise_id = ''e2'', exercise_name = ''Dips'', set_number = 2,
          weight_lbs = None, reps = None, rpe = None, completed = False,
          target_reps = None, rest_seconds = Some 0\<rparr>"
    by (simp add: dips_def)
  with s \<open>currentExerciseIndex s = 0\<close> l2 show ?thesis by blast
qed

subsection \<open>C8: the next exercise\<close>

text \<open>
  Claim C8: when \<^verbatim>\<open>currentExerciseIndex\<close> is not the last index of the workout's list,
  \<^verbatim>\<open>nextExercise\<close> adds exactly 1 to it and rebuilds \<^verbatim>\<open>sets\<close> for the new exercise
  with the loop that the start uses (as many sets as the exercise prescribes, a count
  that is not negative; set numbers 1 to the count; all fields reset); when it is the
  last index, \<^verbatim>\<open>nextExercise\<close> is \<^verbatim>\<open>finishWorkout\<close>, which issues the update of the
  session and leaves the state, \<^verbatim>\<open>currentExerciseIndex\<close> included, as it was.
\<close>

theorem nextExercise_advances_or_finishes:
  "(currentExerciseIndex s + 1 < length (workout_exercises workout)
           \<and> 0 \<le> we_sets (workout_exercises workout ! (currentExerciseIndex s + 1)) \<longrightarrow>
          (\<exists>s'. nextExercise workout startTime s endTime updated = Inr (s', [])
             \<and> currentExerciseIndex s' = currentExerciseIndex s + 1
             \<and> sets s' =
                 initializeSetsLoop (workout_exercises workout ! (currentExerciseIndex s + 1)) 1 []
             \<and> int (length (sets s')) =
                 we_sets (workout_exercises workout ! (currentExerciseIndex s + 1))
             \<and> (\<forall>k < length (sets s').
                   sets s' ! k =
                     \<lparr>set_id = None,
                      exercise_id =
                        we_exercise_id (workout_exercises workout ! (currentExerciseIndex s + 1)),
                      exercise_name =
                        name (exercise (workout_exercises workout ! (currentExerciseIndex s + 1))),
                      set_number = int k + 1,
                      weight_lbs = None, reps = None, rpe = None, completed = False,
                      target_reps =
                        we_reps (workout_exercises workout ! (currentExerciseIndex s + 1)),
                      rest_seconds =
                        Some (we_rest_seconds
                                (workout_exercises workout ! (currentExerciseIndex s + 1)))\<rparr>)))
       \<and> (currentExerciseIndex s + 1 = length (workout_exercises workout) \<longrightarrow>
            nextExercise workout startTime s endTime updated =
              Inr (finishWorkout workout startTime s endTime updated)
            \<and> fst (finishWorkout workout startTime s endTime updated) = s
            \<and> hd (snd (finishWorkout workout startTime s endTime updated)) =
                UpdateSession (sessionId s) endTime (durationMinutes startTime endTime))"
proof (intro conjI impI)
  assume a: "currentExerciseIndex s + 1 < length (workout_exercises workout)
           \<and> 0 \<le> we_sets (workout_exercises workout ! (currentExerciseIndex s + 1))"
  let ?ex = "workout_exercises workout ! (currentExerciseIndex s + 1)"
  let ?s = "s\<lparr>currentExerciseIndex := currentExerciseIndex s + 1,
              sets := initializeSetsLoop ?ex 1 []\<rparr>"
  from a have "nextExercise workout startTime s endTime updated = Inr (?s, [])"
    by (simp add: nextExercise_def initializeSetsForExercise_def Let_def)
  moreover have "currentExerciseIndex ?s = currentExerciseIndex s + 1"
    "sets ?s = initializeSetsLoop ?ex 1 []"
    by simp_all
  moreover from a have "int (length (sets ?s)) = we_sets ?ex"
    by (simp add: length_initializeSetsLoop)
  moreover have "\<forall>k < length (sets ?s). sets ?s ! k =
                     \<lparr>set_id = None, exercise_id = we_exercise_id ?ex,
                      exercise_name = name (exercise ?ex), set_number = int k + 1,
                      weight_lbs = None, reps = None, rpe = None, completed = False,
                      target_reps = we_reps ?ex, rest_seconds = Some (we_rest_seconds ?ex)\<rparr>"
    by (simp add: nth_initializeSetsLoop newSet_def)
  ultimately show "\<exists>s'. nextExercise workout startTime s endTime updated = Inr (s', [])
             \<and> currentExerciseIndex s' = currentExerciseIndex s + 1
             \<and> sets s' = initializeSetsLoop ?ex 1 []
             \<and> int (length (sets s')) = we_sets ?ex
             \<and> (\<forall>k < length (sets s').
                   sets s' ! k =
                     \<lparr>set_id = None, exercise_id = we_exercise_id ?ex,
                      exercise_name = name (exercise ?ex), set_number = int k + 1,
                      weight_lbs = None, reps = None, rpe = None, completed = False,
                      target_reps = we_reps ?ex, rest_seconds = Some (we_rest_seconds ?ex)\<rparr>)"
    by blast
next
  assume "currentExerciseIndex s + 1 = length (workout_exercises workout)"
  then show "nextExercise workout startTime s endTime updated =
              Inr (finishWorkout workout startTime s endTime updated)"
    by (simp add: nextExercise_def)
next
  show "fst (finishWorkout workout startTime s endTime updated) = s"
    by (simp add: finishWorkout_def Let_def split: awaited.splits)
next
  show "hd (snd (finishWorkout workout startTime s endTime updated)) =
                UpdateSession (sessionId s) endTime (durationMinutes startTime endTime)"
    by (simp add: finishWorkout_def Let_def split: awaited.splits)
qed

theorem nextExercise_advances_or_finishes_witness:
  "(\<exists>s'. nextExercise pushDay 0 (skipRest restingState) 600000 (Fulfilled okAnswer) = Inr (s', [])
      \<and> currentExerciseIndex s' = 1 \<and> length (sets s') = 2
      \<and> set_number (sets s' ! 1) = 2 \<and> \<not> completed (sets s' ! 1))
   \<and> nextExercise pushDay 0 dipsState 600000 (Fulfilled okAnswer) =
       Inr (dipsState, [UpdateSession ''s1'' 600000 10, AlertWorkoutComplete ''Push Day'' 10])"
proof -
  have a: "currentExerciseIndex (skipRest restingState) + 1 < length (workout_exercises pushDay)
           \<and> 0 \<le> we_sets (workout_exercises pushDay ! (currentExerciseIndex (skipRest restingState) + 1))"
    by (simp add: skipRest_def example_defs)
  have b: "currentExerciseIndex dipsState + 1 = length (workout_exercises pushDay)"
    by (simp add: example_defs)
  have c: "currentExerciseIndex (skipRest restingState) = 0"
    "workout_exercises pushDay ! 1 = dips" "we_sets dips = 2"
    by (simp_all add: skipRest_def example_defs)
  have d: "finishWorkout pushDay 0 dipsState 600000 (Fulfilled okAnswer) =
             (dipsState, [UpdateSession ''s1'' 600000 10, AlertWorkoutComplete ''Push Day'' 10])"
    by (simp add: finishWorkout_def durationMinutes_def example_defs)
  from nextExercise_advances_or_finishes [of "skipRest restingState" pushDay 0 600000
      "Fulfilled okAnswer"] a c
  obtain s' where "nextExercise pushDay 0 (skipRest restingState) 600000 (Fulfilled okAnswer) =
      Inr (s', [])" "currentExerciseIndex s' = 1" "length (sets s') = 2"
    and n: "\<forall>k < length (sets s'). sets s' ! k =
                     \<lparr>set_id = None, exercise_id = we_exercise_id dips,
                      exercise_name = name (exercise dips), set_number = int k + 1,
                      weight_lbs = None, reps = None, rpe = None, completed = False,
                      target_reps = we_reps dips, rest_seconds = Some (we_rest_seconds dips)\<rparr>"
    by auto
  moreover from n \<open>length (sets s') = 2\<close>
  have "set_number (sets s' ! 1) = 2 \<and> \<not> completed (sets s' ! 1)"
    by simp
  moreover from nextExercise_advances_or_finishes [of dipsState pushDay 0 600000
      "Fulfilled okAnswer"] b d
  have "nextExercise pushDay 0 dipsState 600000 (Fulfilled okAnswer) =
       Inr (dipsState, [UpdateSession ''s1'' 600000 10, AlertWorkoutComplete ''Push Day'' 10])"
    by simp
  ultimately show ?thesis by blast
qed

subsection \<open>C9: editing a completed set\<close>




subsection \<open>C10: a weight or a number of repetitions of 0\<close>

text \<open>
  Claim C10: the guard of \<^verbatim>\<open>completeSet\<close> tests \<^verbatim>\<open>!set.weight_lbs || !set.reps\<close>, so
  it turns a set down when its weight or its repetitions are null and also when either
  is 0: the validation alert is all the handler does, no insert is issued and the state
  is the one it was given. Whatever the store would answer, a set with a weight of 0 or
  with 0 repetitions is not completed.
\<close>

theorem completeSet_rejects_zero:
  assumes "i < length (sets s)"
    and "weight_lbs (sets s ! i) = None \<or> weight_lbs (sets s ! i) = Some 0
         \<or> reps (sets s ! i) = None \<or> reps (sets s ! i) = Some 0"
  shows "completeSet workout s i inserted =
           Inr (s, [Alert ''Incomplete Set''
                      ''Please enter weight and reps before completing the set''])
         \<and> perform workout startTime s (CompleteSet i inserted) = s"
proof -
  from assms(2) have "\<not> truthy (weight_lbs (sets s ! i)) \<or> \<not> truthy (reps (sets s ! i))"
    by (auto simp: truthy_def)
  with assms(1) show ?thesis
    by (simp add: completeSet_falsy incompleteSetAlert_def)
qed

theorem completeSet_rejects_zero_witness:
  "completeSet pushDay (updateSet filledState 0 (F_weight_lbs (Some 0))) 0 (Fulfilled okAnswer) =
     Inr (updateSet filledState 0 (F_weight_lbs (Some 0)),
          [Alert ''Incomplete Set''
             ''Please enter weight and reps before completing the set''])
   \<and> reps (sets (updateSet filledState 0 (F_weight_lbs (Some 0))) ! 0) = Some 5
   \<and> \<not> completed (sets (perform pushDay 0 (updateSet filledState 0 (F_weight_lbs (Some 0)))
                         (CompleteSet 0 (Fulfilled okAnswer))) ! 0)"
proof -
  let ?s = "updateSet filledState 0 (F_weight_lbs (Some 0))"
  have a: "0 < length (sets ?s)"
    by (simp add: sets_updateSet example_defs)
  have b: "weight_lbs (sets ?s ! 0) = Some 0"
    by (simp add: sets_updateSet example_defs)
  have c: "reps (sets ?s ! 0) = Some 5" "\<not> completed (sets ?s ! 0)"
    by (simp_all add: sets_updateSet example_defs)
  from completeSet_rejects_zero [OF a disjI2 [OF disjI1 [OF b]], of pushDay "Fulfilled okAnswer" 0] c
  show ?thesis by simp
qed

end
